theory Spec2Isabelle
  imports Main "HOL-Library.AList" "HOL-Library.Sublist"
begin

section \<open>The LobsterFoundry agent controller (\<^verbatim>\<open>lobster_agent.py\<close>)\<close>

text \<open>
  A shallow embedding of the class \<^verbatim>\<open>LobsterFoundryAgent\<close>: its fields are a record,
  each method is a function from the state before the call to the outcome of the call
  (an exception or the returned value) and the state after it. Python does not roll
  back the assignments made before an exception, so a method that raises still yields
  the state it has reached.
\<close>

subsection \<open>JSON values and the Python operations on them\<close>

text \<open>
  What \<^verbatim>\<open>json.loads\<close> returns: \<^verbatim>\<open>None\<close> (\<open>JNull\<close>), a bool, an int, a finite
  float \<open>m * 2 ^ e\<close> (\<open>JFloat m e\<close>), a str, a list, or a dict. A dict is an association
  list in insertion order (looked up at the first entry of a key, updated in place or
  extended at the end, as Python's dict is); a missing attribute value and JSON's
  \<^verbatim>\<open>null\<close> are both \<^verbatim>\<open>None\<close>.
\<close>

datatype json =
    JNull
  | JBool bool
  | JInt int
  | JFloat int int
  | JStr string
  | JArr "json list"
  | JObj "(string \<times> json) list"

datatype py_error =
    AttributeError
  | TypeError
  | KeyError string
  | JSONDecodeError
  | OSError
  | TransportError

text \<open>Python's truth value of an object (\<^verbatim>\<open>if v:\<close>, \<^verbatim>\<open>not v\<close>, \<^verbatim>\<open>a or b\<close>).\<close>

fun truthy :: "json \<Rightarrow> bool" where
  "truthy JNull = False"
| "truthy (JBool b) = b"
| "truthy (JInt i) = (i \<noteq> 0)"
| "truthy (JFloat m e) = (m \<noteq> 0)"
| "truthy (JStr s) = (s \<noteq> [])"
| "truthy (JArr xs) = (xs \<noteq> [])"
| "truthy (JObj d) = (d \<noteq> [])"

text \<open>\<^verbatim>\<open>d.get(k, default)\<close> and \<^verbatim>\<open>d.get(k)\<close> on a dict \<open>d\<close>.\<close>

definition get_default :: "(string \<times> json) list \<Rightarrow> string \<Rightarrow> json \<Rightarrow> json" where
  "get_default d k dflt = (case map_of d k of None \<Rightarrow> dflt | Some v \<Rightarrow> v)"

definition get :: "(string \<times> json) list \<Rightarrow> string \<Rightarrow> json" where
  "get d k = get_default d k JNull"

text \<open>
  \<^verbatim>\<open>v.get(k)\<close> on any object: only a dict has the method, every other JSON value
  raises \<^verbatim>\<open>AttributeError\<close>.
\<close>

definition attr_get :: "json \<Rightarrow> string \<Rightarrow> py_error + json" where
  "attr_get v k = (case v of JObj d \<Rightarrow> Inr (get d k) | _ \<Rightarrow> Inl AttributeError)"

text \<open>\<^verbatim>\<open>sub in s\<close> on two strings: \<open>sub\<close> occurs in \<open>s\<close> as a contiguous run.\<close>

fun substring :: "string \<Rightarrow> string \<Rightarrow> bool" where
  "substring sub [] = (sub = [])"
| "substring sub (c # cs) = (prefix sub (c # cs) \<or> substring sub cs)"

text \<open>
  \<^verbatim>\<open>k in v\<close> for a string \<open>k\<close>: key membership in a dict, element membership in a
  list, substring test in a str; \<^verbatim>\<open>None\<close>, bools and numbers are not iterable
  (\<^verbatim>\<open>TypeError\<close>).
\<close>

fun contains :: "string \<Rightarrow> json \<Rightarrow> py_error + bool" where
  "contains k (JObj d) = Inr (k \<in> set (map fst d))"
| "contains k (JArr xs) = Inr (JStr k \<in> set xs)"
| "contains k (JStr s) = Inr (substring k s)"
| "contains k _ = Inl TypeError"

text \<open>
  \<^verbatim>\<open>v[k]\<close> for a string \<open>k\<close>: a dict gives the value or \<^verbatim>\<open>KeyError\<close>; a list or
  str wants an integer index and every other value is not subscriptable
  (\<^verbatim>\<open>TypeError\<close>).
\<close>

fun subscript :: "json \<Rightarrow> string \<Rightarrow> py_error + json" where
  "subscript (JObj d) k = (case map_of d k of None \<Rightarrow> Inl (KeyError k) | Some v \<Rightarrow> Inr v)"
| "subscript _ k = Inl TypeError"

text \<open>
  \<^verbatim>\<open>v[k] = x\<close> for a string \<open>k\<close>: the updated object. Only a dict accepts it;
  \<^verbatim>\<open>None\<close> and the other values raise \<^verbatim>\<open>TypeError\<close>.
\<close>

fun store_item :: "json \<Rightarrow> string \<Rightarrow> json \<Rightarrow> py_error + json" where
  "store_item (JObj d) k x = Inr (JObj (AList.update k x d))"
| "store_item _ k x = Inl TypeError"

text \<open>
  \<^verbatim>\<open>s.replace(old, new)\<close> for a non-empty \<open>old\<close>: every occurrence, left to right,
  without overlaps.
\<close>

fun replace_all :: "string \<Rightarrow> string \<Rightarrow> string \<Rightarrow> string" where
  "replace_all old new [] = []"
| "replace_all old new (c # cs) =
     (if old \<noteq> [] \<and> prefix old (c # cs)
      then new @ replace_all old new (drop (length old) (c # cs))
      else c # replace_all old new cs)"

text \<open>
  An f-string is kept as its parts, the literal text and the interpolated values; how
  \<^verbatim>\<open>str()\<close> renders a value is not modelled.
\<close>

datatype part = Lit string | Val json

type_synonym message = "part list"

subsection \<open>The agent, the environment and the effects\<close>

text \<open>
  A text received from outside (a WebSocket message, a file, an HTTP body): either
  \<^verbatim>\<open>json.loads\<close> decodes it to a value or it raises \<^verbatim>\<open>JSONDecodeError\<close>.
\<close>

datatype wire = Malformed | Text json

text \<open>
  The calls the agent makes on its collaborators, in order. A \<^verbatim>\<open>WebSocketApp\<close>
  object is named by the number of objects created before it, a thread by the number
  of threads started before it. \<open>RunForever t c\<close> is thread \<open>t\<close> calling
  \<^verbatim>\<open>run_forever()\<close> on channel \<open>c\<close>: one attempt to open the connection to the
  server. \<open>Send c frame\<close> is \<^verbatim>\<open>send(json.dumps(frame))\<close> on channel \<open>c\<close>.
\<close>

datatype effect =
    NewChannel nat string
  | ThreadStart nat
  | RunForever nat nat
  | Send nat json
  | ChannelClose nat
  | HttpRequest string string "json option" "json option"
  | FileWrite json

text \<open>
  Where a background thread stands in \<^verbatim>\<open>_ws_run\<close>: inside
  \<^verbatim>\<open>self.ws.run_forever()\<close> on a channel, inside \<^verbatim>\<open>time.sleep(1)\<close>, or
  past the loop.
\<close>

datatype thread_pc = InRunForever nat | InSleep | Exited

text \<open>
  What one call of \<^verbatim>\<open>urlopen\<close> does, the environment's answer to a request: a
  response with its body, an \<^verbatim>\<open>HTTPError\<close> with its code and body, a
  \<^verbatim>\<open>URLError\<close> with its reason as \<^verbatim>\<open>str()\<close> renders it, or an exception
  that \<^verbatim>\<open>api_request\<close> does not catch.
\<close>

datatype http_outcome =
    Response wire
  | HTTPError nat wire
  | URLError string
  | Failure

text \<open>
  The fields of \<^verbatim>\<open>LobsterFoundryAgent\<close>, as \<^verbatim>\<open>__init__\<close> lists them.
  \<open>ws\<close> and \<open>ws_thread\<close> hold the object's number, \<open>None\<close> before the first
  connection attempt.
\<close>

record agent =
  server :: string
  ws_url :: string
  credentials :: json
  ws :: "nat option"
  connected :: bool
  avatar :: json
  wallet :: json
  license :: json
  world_state :: json
  ws_thread :: "nat option"
  running :: bool

text \<open>
  The agent together with what surrounds it: the module constant
  \<^verbatim>\<open>HAS_WEBSOCKET\<close>, the credentials file (absent, or its text), whether the
  configuration directory can be written, the answers of the server to the HTTP
  requests (by the number of the request), the values of
  \<^verbatim>\<open>secrets.token_hex(32)\<close> and \<^verbatim>\<open>time.time()\<close>, the background threads,
  and the effects so far.
\<close>

record world = agent +
  has_websocket :: bool
  cred_file :: "wire option"
  fs_writable :: bool
  http :: "nat \<Rightarrow> http_outcome"
  http_calls :: nat
  token_hex :: string
  now :: json
  threads :: "thread_pc list"
  channels :: nat
  trace :: "effect list"

text \<open>
  The object after \<^verbatim>\<open>__init__(server)\<close>, \<open>dflt\<close> being the module constant
  \<^verbatim>\<open>DEFAULT_SERVER\<close>; a server that is \<^verbatim>\<open>None\<close> or empty is the empty
  string.
\<close>

definition init :: "string \<Rightarrow> string \<Rightarrow> agent" where
  "init dflt srv =
     (let s = (if srv \<noteq> [] then srv else dflt) in
      \<lparr>server = s,
       ws_url = replace_all ''http'' ''ws'' s @ ''/api/world/ws'',
       credentials = JNull, ws = None, connected = False,
       avatar = JNull, wallet = JNull, license = JNull, world_state = JNull,
       ws_thread = None, running = False\<rparr>)"

subsection \<open>Inbound frames: \<^verbatim>\<open>_handle_ws_message\<close>\<close>

text \<open>
  One step of the partial merge of an \<^verbatim>\<open>ACTION_RESULT\<close>:
  \<^verbatim>\<open>if k in action_data: self.avatar[k] = action_data[k]\<close>. The right-hand side is
  evaluated before the store.
\<close>

definition merge_field :: "string \<Rightarrow> json \<Rightarrow> world \<Rightarrow> (py_error + unit) \<times> world" where
  "merge_field k action_data w =
     (case contains k action_data of
        Inl e \<Rightarrow> (Inl e, w)
      | Inr False \<Rightarrow> (Inr (), w)
      | Inr True \<Rightarrow>
          (case subscript action_data k of
             Inl e \<Rightarrow> (Inl e, w)
           | Inr v \<Rightarrow>
               (case store_item (avatar w) k v of
                  Inl e \<Rightarrow> (Inl e, w)
                | Inr a \<Rightarrow> (Inr (), w\<lparr>avatar := a\<rparr>))))"

text \<open>Statements in sequence: the second runs only if the first did not raise.\<close>

definition and_then ::
  "(world \<Rightarrow> (py_error + unit) \<times> world) \<Rightarrow> (world \<Rightarrow> (py_error + 'a) \<times> world) \<Rightarrow>
   world \<Rightarrow> (py_error + 'a) \<times> world" where
  "and_then f g w = (case f w of (Inl e, w') \<Rightarrow> (Inl e, w') | (Inr u, w') \<Rightarrow> g w')"

text \<open>
  The handler. \<^verbatim>\<open>data.get('type')\<close> needs \<open>data\<close> to be a dict. The \<^verbatim>\<open>print\<close>
  calls are modelled by the evaluation of their arguments only, which can raise: after
  \<^verbatim>\<open>AUTH_SUCCESS\<close> has assigned the four fields, \<^verbatim>\<open>self.avatar.get('name')\<close>
  raises unless the avatar is a dict, and \<^verbatim>\<open>LEDGER_EVENT\<close> calls \<^verbatim>\<open>.get\<close> on
  the event (\<^verbatim>\<open>{}\<close> when the key is absent). A type that matches no branch falls
  through the chain.
\<close>

definition handle_ws_message :: "json \<Rightarrow> world \<Rightarrow> (py_error + unit) \<times> world" where
  "handle_ws_message data w =
     (case data of
        JObj d \<Rightarrow>
          (let msg_type = get d ''type'' in
           if msg_type = JStr ''AUTH_SUCCESS'' then
             (let w1 = w\<lparr>connected := True, avatar := get d ''avatar'',
                         wallet := get d ''wallet'', license := get d ''license''\<rparr> in
              case attr_get (avatar w1) ''name'' of
                Inl e \<Rightarrow> (Inl e, w1)
              | Inr n \<Rightarrow> (Inr (), w1))
           else if msg_type = JStr ''AUTH_FAILED'' then (Inr (), w)
           else if msg_type = JStr ''ACTION_RESULT'' then
             (let success = get d ''success'';
                  action_data = get_default d ''data'' (JObj []) in
              if truthy success then
                and_then (merge_field ''x'' action_data)
                  (and_then (merge_field ''y'' action_data)
                     (merge_field ''state'' action_data)) w
              else (Inr (), w))
           else if msg_type = JStr ''WORLD_STATE'' then
             (Inr (), w\<lparr>world_state := get d ''state''\<rparr>)
           else if msg_type = JStr ''AVATAR_UPDATE'' then (Inr (), w)
           else if msg_type = JStr ''LEDGER_EVENT'' then
             (case attr_get (get_default d ''event'' (JObj [])) ''type'' of
                Inl e \<Rightarrow> (Inl e, w)
              | Inr t \<Rightarrow> (Inr (), w))
           else (Inr (), w))
      | _ \<Rightarrow> (Inl AttributeError, w))"

subsection \<open>The callbacks of the channel and the background thread \<^verbatim>\<open>_ws_run\<close>\<close>

text \<open>
  \<^verbatim>\<open>ws.send(json.dumps(frame))\<close> on channel \<open>c\<close>. The frame is recorded as the
  value it encodes. An exception of the library's own \<^verbatim>\<open>send\<close> is not modelled.
\<close>

definition send_on :: "nat \<Rightarrow> json \<Rightarrow> world \<Rightarrow> world" where
  "send_on c frame w = w\<lparr>trace := trace w @ [Send c frame]\<rparr>"

text \<open>\<^verbatim>\<open>self.ws.send(...)\<close>: \<^verbatim>\<open>self.ws\<close> may still be \<^verbatim>\<open>None\<close>.\<close>

definition ws_send :: "json \<Rightarrow> world \<Rightarrow> (py_error + unit) \<times> world" where
  "ws_send frame w =
     (case ws w of
        None \<Rightarrow> (Inl AttributeError, w)
      | Some c \<Rightarrow> (Inr (), send_on c frame w))"

text \<open>
  The four closures that \<^verbatim>\<open>connect_websocket\<close> hands to the
  \<^verbatim>\<open>WebSocketApp\<close>. \<^verbatim>\<open>on_message\<close> drops a text that does not decode;
  \<^verbatim>\<open>on_open\<close> sends the auth frame on the channel that opened, after reading the
  two credentials; \<^verbatim>\<open>on_error\<close> only prints; \<^verbatim>\<open>on_close\<close> clears
  \<^verbatim>\<open>connected\<close>.
\<close>

definition on_message :: "wire \<Rightarrow> world \<Rightarrow> (py_error + unit) \<times> world" where
  "on_message message w =
     (case message of
        Malformed \<Rightarrow> (Inr (), w)
      | Text data \<Rightarrow> handle_ws_message data w)"

definition on_error :: "world \<Rightarrow> (py_error + unit) \<times> world" where
  "on_error w = (Inr (), w)"

definition on_close :: "world \<Rightarrow> (py_error + unit) \<times> world" where
  "on_close w = (Inr (), w\<lparr>connected := False\<rparr>)"

definition on_open :: "nat \<Rightarrow> world \<Rightarrow> (py_error + unit) \<times> world" where
  "on_open c w =
     (case subscript (credentials w) ''bot_id'' of
        Inl e \<Rightarrow> (Inl e, w)
      | Inr bot_id \<Rightarrow>
          (case subscript (credentials w) ''api_key'' of
             Inl e \<Rightarrow> (Inl e, w)
           | Inr token \<Rightarrow>
               (Inr (), send_on c (JObj [(''type'', JStr ''BOT_AUTH''), (''botId'', bot_id),
                                         (''token'', token)]) w)))"

text \<open>
  The head of the loop of \<^verbatim>\<open>_ws_run\<close>, for thread \<open>t\<close>:
  \<^verbatim>\<open>while self._running: try: self.ws.run_forever() except Exception: ...;
  time.sleep(1)\<close>. With \<^verbatim>\<open>_running\<close> set the thread calls
  \<^verbatim>\<open>run_forever\<close> on the channel that \<^verbatim>\<open>self.ws\<close> holds now (an
  \<^verbatim>\<open>AttributeError\<close> on \<^verbatim>\<open>None\<close> is caught and the thread sleeps);
  otherwise the thread leaves the loop.
\<close>

definition ws_run :: "nat \<Rightarrow> world \<Rightarrow> world" where
  "ws_run t w =
     (if running w then
        (case ws w of
           None \<Rightarrow> w\<lparr>threads := (threads w)[t := InSleep]\<rparr>
         | Some c \<Rightarrow> w\<lparr>threads := (threads w)[t := InRunForever c],
                        trace := trace w @ [RunForever t c]\<rparr>)
      else w\<lparr>threads := (threads w)[t := Exited]\<rparr>)"

text \<open>
  What happens in a background thread, one event at a time. Inside
  \<^verbatim>\<open>run_forever\<close> the library calls the callbacks (an exception of a callback is
  caught by the library, which keeps running: the assignments made so far stay), until
  \<^verbatim>\<open>run_forever\<close> returns or raises (\<open>RunReturns\<close>) and the thread sleeps;
  when the sleep ends (\<open>SleepEnds\<close>) the thread is back at the head of the loop. An
  event that the thread cannot take where it stands changes nothing. Callbacks and the
  foreground's calls are taken as atomic.
\<close>

datatype ws_event = OnOpen | OnMessage wire | OnError | OnClose | RunReturns | SleepEnds

definition bg_step :: "nat \<times> ws_event \<Rightarrow> world \<Rightarrow> world" where
  "bg_step te w =
     (let t = fst te; e = snd te in
      if t < length (threads w) then
        (case threads w ! t of
           InRunForever c \<Rightarrow>
             (case e of
                OnOpen \<Rightarrow> snd (on_open c w)
              | OnMessage m \<Rightarrow> snd (on_message m w)
              | OnError \<Rightarrow> snd (on_error w)
              | OnClose \<Rightarrow> snd (on_close w)
              | RunReturns \<Rightarrow> w\<lparr>threads := (threads w)[t := InSleep]\<rparr>
              | SleepEnds \<Rightarrow> w)
         | InSleep \<Rightarrow> (case e of SleepEnds \<Rightarrow> ws_run t w | _ \<Rightarrow> w)
         | Exited \<Rightarrow> w)
      else w)"

text \<open>A run of background events, in order.\<close>

fun deliver :: "(nat \<times> ws_event) list \<Rightarrow> world \<Rightarrow> world" where
  "deliver [] w = w"
| "deliver (te # tes) w = deliver tes (bg_step te w)"

subsection \<open>Opening and closing the live channel\<close>

text \<open>
  The wait of \<^verbatim>\<open>connect_websocket\<close>:
  \<^verbatim>\<open>for _ in range(50): if self.connected: return True, "Connected";
  time.sleep(0.1)\<close>, then \<^verbatim>\<open>return False, "Connection timeout"\<close>. \<open>n\<close> is the
  number of tests left; the schedule gives, for each sleep, the background events that
  happen during it.
\<close>

fun wait_for_connection ::
  "nat \<Rightarrow> (nat \<times> ws_event) list list \<Rightarrow> world \<Rightarrow> (py_error + bool \<times> message) \<times> world" where
  "wait_for_connection 0 sched w = (Inr (False, [Lit ''Connection timeout'']), w)"
| "wait_for_connection (Suc n) sched w =
     (if connected w then (Inr (True, [Lit ''Connected'']), w)
      else (case sched of
              [] \<Rightarrow> wait_for_connection n [] w
            | b # bs \<Rightarrow> wait_for_connection n bs (deliver b w)))"

text \<open>
  \<^verbatim>\<open>connect_websocket\<close>. After the three guards it creates the channel object,
  sets \<^verbatim>\<open>_running\<close>, starts the thread (which stands at the head of the loop of
  \<^verbatim>\<open>_ws_run\<close>) and waits. The first batch of the schedule happens between the
  start of the thread and the first test of the wait.
\<close>

definition connect_websocket ::
  "(nat \<times> ws_event) list list \<Rightarrow> world \<Rightarrow> (py_error + bool \<times> message) \<times> world" where
  "connect_websocket sched w =
     (if \<not> has_websocket w then (Inr (False, [Lit ''WebSocket library not installed'']), w)
      else if \<not> truthy (credentials w) then (Inr (False, [Lit ''Not registered'']), w)
      else if connected w then (Inr (True, [Lit ''Already connected'']), w)
      else
        (let c = channels w;
             w1 = w\<lparr>ws := Some c, channels := Suc c,
                     trace := trace w @ [NewChannel c (ws_url w)]\<rparr>;
             w2 = w1\<lparr>running := True\<rparr>;
             t = length (threads w2);
             w3 = ws_run t (w2\<lparr>ws_thread := Some t, threads := threads w2 @ [InSleep],
                               trace := trace w2 @ [ThreadStart t]\<rparr>)
         in case sched of
              [] \<Rightarrow> wait_for_connection 50 [] w3
            | b # bs \<Rightarrow> wait_for_connection 50 bs (deliver b w3)))"

text \<open>
  \<^verbatim>\<open>disconnect_websocket\<close>: clears \<^verbatim>\<open>_running\<close>, closes the channel object if
  there is one, clears \<^verbatim>\<open>connected\<close>. \<^verbatim>\<open>self.ws\<close> is never reset.
\<close>

definition disconnect_websocket :: "world \<Rightarrow> (py_error + unit) \<times> world" where
  "disconnect_websocket w =
     (let w1 = w\<lparr>running := False\<rparr>;
          w2 = (case ws w1 of
                  None \<Rightarrow> w1
                | Some c \<Rightarrow> w1\<lparr>trace := trace w1 @ [ChannelClose c]\<rparr>)
      in (Inr (), w2\<lparr>connected := False\<rparr>))"

subsection \<open>Avatar actions\<close>

text \<open>
  Each action tests \<^verbatim>\<open>self.connected\<close> first and otherwise sends one
  \<^verbatim>\<open>BOT_ACTION\<close> frame on \<^verbatim>\<open>self.ws\<close>.
\<close>

definition bot_action :: "string \<Rightarrow> json \<Rightarrow> json" where
  "bot_action action payload =
     JObj [(''type'', JStr ''BOT_ACTION''), (''action'', JStr action), (''payload'', payload)]"

definition dispatch :: "json \<Rightarrow> message \<Rightarrow> world \<Rightarrow> (py_error + bool \<times> message) \<times> world" where
  "dispatch frame msg w =
     (if \<not> connected w then (Inr (False, [Lit ''Not connected'']), w)
      else (case ws_send frame w of
              (Inl e, w') \<Rightarrow> (Inl e, w')
            | (Inr u, w') \<Rightarrow> (Inr (True, msg), w')))"

definition move_to :: "json \<Rightarrow> json \<Rightarrow> world \<Rightarrow> (py_error + bool \<times> message) \<times> world" where
  "move_to x y =
     dispatch (bot_action ''MOVE'' (JObj [(''x'', x), (''y'', y)]))
       [Lit ''Moving to ('', Val x, Lit '', '', Val y, Lit '')'']"

definition interact_with :: "json \<Rightarrow> json \<Rightarrow> world \<Rightarrow> (py_error + bool \<times> message) \<times> world" where
  "interact_with stall_id building_id =
     dispatch (bot_action ''INTERACT'' (JObj [(''stallId'', stall_id), (''buildingId'', building_id)]))
       [Lit ''Interacting with '', Val (if truthy stall_id then stall_id else building_id)]"

definition read_notices :: "world \<Rightarrow> (py_error + bool \<times> message) \<times> world" where
  "read_notices =
     dispatch (bot_action ''READ'' (JObj [(''targetId'', JStr ''notice_board'')]))
       [Lit ''Reading notices'']"

definition accept_quest :: "json \<Rightarrow> world \<Rightarrow> (py_error + bool \<times> message) \<times> world" where
  "accept_quest quest_id =
     dispatch (bot_action ''ACCEPT_QUEST'' (JObj [(''questId'', quest_id)]))
       [Lit ''Accepting quest '', Val quest_id]"

definition celebrate :: "world \<Rightarrow> (py_error + bool \<times> message) \<times> world" where
  "celebrate =
     dispatch (bot_action ''CELEBRATE'' (JObj []))
       [Lit ''Celebrating!'']"

subsection \<open>Request/response calls and the credential store\<close>

text \<open>A natural number in decimal, as an f-string renders \<^verbatim>\<open>e.code\<close>.\<close>

fun decimal :: "nat \<Rightarrow> string" where
  "decimal n =
     (if n < 10 then [char_of (48 + n)]
      else decimal (n div 10) @ [char_of (48 + n mod 10)])"

text \<open>
  \<^verbatim>\<open>api_request(endpoint, method, data)\<close>. The bearer header is added when
  \<^verbatim>\<open>self.credentials\<close> is truthy (\<^verbatim>\<open>.get('api_key', '')\<close> on it needs a dict);
  the body is sent when \<open>data\<close> is truthy. A response body is decoded outside any
  handler that would catch \<^verbatim>\<open>JSONDecodeError\<close>; the body of an
  \<^verbatim>\<open>HTTPError\<close> is decoded under a bare \<^verbatim>\<open>except\<close>.
\<close>

definition api_request :: "string \<Rightarrow> string \<Rightarrow> json \<Rightarrow> world \<Rightarrow> (py_error + json) \<times> world" where
  "api_request endpoint method data w =
     (let url = server w @ endpoint in
      case (if truthy (credentials w)
            then (case credentials w of
                    JObj c \<Rightarrow> Inr (Some (get_default c ''api_key'' (JStr [])))
                  | _ \<Rightarrow> Inl AttributeError)
            else Inr None) of
        Inl e \<Rightarrow> (Inl e, w)
      | Inr auth \<Rightarrow>
          (let body = (if truthy data then Some data else None);
               w' = w\<lparr>http_calls := Suc (http_calls w),
                       trace := trace w @ [HttpRequest method url auth body]\<rparr>
           in case http w (http_calls w) of
                Response (Text j) \<Rightarrow> (Inr j, w')
              | Response Malformed \<Rightarrow> (Inl JSONDecodeError, w')
              | HTTPError code (Text j) \<Rightarrow> (Inr j, w')
              | HTTPError code Malformed \<Rightarrow>
                  (Inr (JObj [(''ok'', JBool False), (''message'', JStr (''HTTP '' @ decimal code))]), w')
              | URLError reason \<Rightarrow>
                  (Inr (JObj [(''ok'', JBool False),
                              (''message'', JStr (''Connection error: '' @ reason))]), w')
              | Failure \<Rightarrow> (Inl TransportError, w')))"


definition save_credentials :: "json \<Rightarrow> world \<Rightarrow> (py_error + unit) \<times> world" where
  "save_credentials creds w =
     (if fs_writable w
      then (Inr (), w\<lparr>credentials := creds, cred_file := Some (Text creds),
                       trace := trace w @ [FileWrite creds]\<rparr>)
      else (Inl OSError, w))"

text \<open>
  \<^verbatim>\<open>register(name)\<close>: on an ok answer the three identifiers are read from the
  result in order (a missing one raises \<^verbatim>\<open>KeyError\<close>) and the credentials are
  saved.
\<close>

definition register :: "json \<Rightarrow> world \<Rightarrow> (py_error + bool \<times> json) \<times> world" where
  "register name w =
     (case api_request ''/api/world/bot/register'' ''POST''
             (JObj [(''agent_type'', JStr ''openclaw''), (''agent_version'', JStr ''1.0.0''),
                    (''public_key'', JStr (token_hex w)), (''requested_name'', name)]) w of
        (Inl e, w1) \<Rightarrow> (Inl e, w1)
      | (Inr result, w1) \<Rightarrow>
          (case attr_get result ''ok'' of
             Inl e \<Rightarrow> (Inl e, w1)
           | Inr ok \<Rightarrow>
               if truthy ok then
                 (case subscript result ''api_key'' of
                    Inl e \<Rightarrow> (Inl e, w1)
                  | Inr api_key \<Rightarrow>
                      (case subscript result ''bot_id'' of
                         Inl e \<Rightarrow> (Inl e, w1)
                       | Inr bot_id \<Rightarrow>
                           (case subscript result ''signer_id'' of
                              Inl e \<Rightarrow> (Inl e, w1)
                            | Inr signer_id \<Rightarrow>
                                (case save_credentials
                                        (JObj [(''api_key'', api_key), (''bot_id'', bot_id),
                                               (''signer_id'', signer_id), (''name'', name),
                                               (''server'', JStr (server w1)),
                                               (''registered_at'', now w1)]) w1 of
                                   (Inl e, w2) \<Rightarrow> (Inl e, w2)
                                 | (Inr u, w2) \<Rightarrow> (Inr (True, result), w2)))))
               else (Inr (False, result), w1)))"

text \<open>
  \<^verbatim>\<open>authenticate()\<close>: \<^verbatim>\<open>self.credentials['api_key']\<close> is read before the
  request is made.
\<close>

definition authenticate :: "world \<Rightarrow> (py_error + bool \<times> json) \<times> world" where
  "authenticate w =
     (if \<not> truthy (credentials w)
      then (Inr (False, JObj [(''message'', JStr ''Not registered'')]), w)
      else
        (case subscript (credentials w) ''api_key'' of
           Inl e \<Rightarrow> (Inl e, w)
         | Inr token \<Rightarrow>
             (case api_request ''/api/world/bot/auth'' ''POST'' (JObj [(''token'', token)]) w of
                (Inl e, w1) \<Rightarrow> (Inl e, w1)
              | (Inr result, w1) \<Rightarrow>
                  (case attr_get result ''ok'' of
                     Inl e \<Rightarrow> (Inl e, w1)
                   | Inr ok \<Rightarrow>
                       if truthy ok
                       then (case result of
                               JObj r \<Rightarrow> (Inr (True, result), w1\<lparr>avatar := get r ''assignedAvatar''\<rparr>)
                             | _ \<Rightarrow> (Inl AttributeError, w1))
                       else (Inr (False, result), w1)))))"



subsection \<open>The bootstrap \<^verbatim>\<open>ensure_connected\<close>\<close>






subsection \<open>Notions used in the statements\<close>

text \<open>The value of a field of a JSON object; \<open>None\<close> when there is no such field.\<close>

definition field :: "json \<Rightarrow> string \<Rightarrow> json option" where
  "field v k = (case v of JObj d \<Rightarrow> map_of d k | _ \<Rightarrow> None)"

text \<open>The dict \<open>a\<close> after \<^verbatim>\<open>if k in p: a[k] = p[k]\<close>.\<close>

definition merge1 :: "string \<Rightarrow> (string \<times> json) list \<Rightarrow> (string \<times> json) list \<Rightarrow> (string \<times> json) list" where
  "merge1 k p a = (case map_of p k of None \<Rightarrow> a | Some v \<Rightarrow> AList.update k v a)"

text \<open>
  The world at the start of a process: the agent as constructed, no request made, no
  thread, no channel object, no effect yet.
\<close>

definition start :: "agent \<Rightarrow> bool \<Rightarrow> wire option \<Rightarrow> bool \<Rightarrow> (nat \<Rightarrow> http_outcome) \<Rightarrow>
    string \<Rightarrow> json \<Rightarrow> world" where
  "start a lib file writable answers tok t =
     \<lparr>server = server a, ws_url = ws_url a, credentials = credentials a, ws = ws a,
      connected = connected a, avatar = avatar a, wallet = wallet a, license = license a,
      world_state = world_state a, ws_thread = ws_thread a, running = running a,
      has_websocket = lib, cred_file = file, fs_writable = writable, http = answers,
      http_calls = 0, token_hex = tok, now = t, threads = [], channels = 0, trace = []\<rparr>"

text \<open>
  Concrete worlds for the examples: a fresh agent with the library installed and a
  server that cannot be reached; the same agent holding credentials; the avatar and the
  \<^verbatim>\<open>AUTH_SUCCESS\<close> frame of the specification's examples; and the session after
  the channel opened and the server answered the auth frame with that frame.
\<close>

definition demo_world :: world where
  "demo_world =
     start (init ''http://localhost:5173'' []) True None True (\<lambda>n. Failure) ''ab'' (JInt 0)"

definition demo_credentials :: json where
  "demo_credentials =
     JObj [(''api_key'', JStr ''key-1''), (''bot_id'', JStr ''bot-1''),
           (''signer_id'', JStr ''signer-1''), (''name'', JStr ''PaxAgent''),
           (''server'', JStr ''http://localhost:5173''), (''registered_at'', JInt 0)]"

definition registered_world :: world where
  "registered_world = demo_world\<lparr>credentials := demo_credentials\<rparr>"

definition bot1 :: json where
  "bot1 = JObj [(''x'', JInt 10), (''y'', JInt 5), (''name'', JStr ''Bot1'')]"

definition auth_success_frame :: json where
  "auth_success_frame =
     JObj [(''type'', JStr ''AUTH_SUCCESS''), (''avatar'', bot1),
           (''wallet'', JObj [(''cc'', JInt 0)])]"

definition live_world :: world where
  "live_world =
     snd (connect_websocket [[(0, OnOpen), (0, OnMessage (Text auth_success_frame))]]
            registered_world)"

text \<open>The connection attempts made so far: the calls of \<^verbatim>\<open>run_forever\<close>.\<close>

fun is_attempt :: "effect \<Rightarrow> bool" where
  "is_attempt (RunForever t c) = True"
| "is_attempt _ = False"

definition attempts :: "world \<Rightarrow> nat" where
  "attempts w = length (filter is_attempt (trace w))"

text \<open>The frames sent and the channels closed so far.\<close>

fun is_send :: "effect \<Rightarrow> bool" where
  "is_send (Send c f) = True"
| "is_send _ = False"

fun is_close :: "effect \<Rightarrow> bool" where
  "is_close (ChannelClose c) = True"
| "is_close _ = False"

text \<open>An \<^verbatim>\<open>AUTH_SUCCESS\<close> or \<^verbatim>\<open>AUTH_FAILED\<close> frame arriving on the channel.\<close>

fun is_handshake_outcome :: "nat \<times> ws_event \<Rightarrow> bool" where
  "is_handshake_outcome (t, OnMessage (Text (JObj d))) =
     (get d ''type'' = JStr ''AUTH_SUCCESS'' \<or> get d ''type'' = JStr ''AUTH_FAILED'')"
| "is_handshake_outcome _ = False"

fun is_auth_success :: "nat \<times> ws_event \<Rightarrow> bool" where
  "is_auth_success (t, OnMessage (Text (JObj d))) = (get d ''type'' = JStr ''AUTH_SUCCESS'')"
| "is_auth_success _ = False"


text \<open>The same for \<^verbatim>\<open>register\<close> and \<^verbatim>\<open>authenticate\<close>, which return \<^verbatim>\<open>(False, result)\<close>.\<close>

definition failed :: "((py_error + bool \<times> json) \<times> world) \<Rightarrow> bool" where
  "failed r = (case fst r of Inl e \<Rightarrow> False | Inr sr \<Rightarrow> \<not> fst sr)"











section \<open>Properties\<close>

subsection \<open>Evaluation of the example worlds\<close>

lemma fifty: "(50::nat) = Suc 49"
  by simp

lemma wait_fifty:
  "wait_for_connection 50 sched w =
     (if connected w then (Inr (True, [Lit ''Connected'']), w)
      else (case sched of
              [] \<Rightarrow> wait_for_connection 49 [] w
            | b # bs \<Rightarrow> wait_for_connection 49 bs (deliver b w)))"
proof -
  have "wait_for_connection 50 sched w = wait_for_connection (Suc 49) sched w"
    by (simp only: fifty)
  then show ?thesis by (simp only: wait_for_connection.simps)
qed

lemma demo_world_simps:
  "has_websocket demo_world" "\<not> connected demo_world" "threads demo_world = []"
  "channels demo_world = 0" "trace demo_world = []" "ws demo_world = None"
  "ws_url demo_world = ''ws://localhost:5173/api/world/ws''" "\<not> running demo_world"
  "avatar demo_world = JNull" "credentials demo_world = JNull"
  by (simp_all add: demo_world_def start_def init_def)

lemma registered_world_simps:
  "has_websocket registered_world" "\<not> connected registered_world" "threads registered_world = []"
  "channels registered_world = 0" "trace registered_world = []" "ws registered_world = None"
  "\<not> running registered_world" "avatar registered_world = JNull"
  "credentials registered_world = demo_credentials"
  by (simp_all add: registered_world_def demo_world_simps)

lemma live_world_eq:
  "live_world = registered_world\<lparr>ws := Some 0, connected := True, avatar := bot1,
      wallet := JObj [(''cc'', JInt 0)], license := JNull, ws_thread := Some 0, running := True,
      threads := [InRunForever 0], channels := Suc 0,
      trace := [NewChannel 0 ''ws://localhost:5173/api/world/ws'', ThreadStart 0, RunForever 0 0,
                Send 0 (JObj [(''type'', JStr ''BOT_AUTH''), (''botId'', JStr ''bot-1''),
                              (''token'', JStr ''key-1'')])]\<rparr>"
  unfolding live_world_def connect_websocket_def registered_world_def
  by (simp add: demo_world_simps demo_credentials_def Let_def ws_run_def bg_step_def on_open_def
      on_message_def handle_ws_message_def auth_success_frame_def get_def get_default_def
      attr_get_def bot1_def send_on_def wait_fifty)

subsection \<open>Inbound frames\<close>

lemma avatar_same: "avatar w = JObj a \<Longrightarrow> w\<lparr>avatar := JObj a\<rparr> = (w::world)"
  by (cases w) simp

lemma map_of_merge1:
  "map_of (merge1 k p a) j = (if j = k \<and> k \<in> set (map fst p) then map_of p k else map_of a j)"
proof (cases "map_of p k")
  case None
  then have "k \<notin> set (map fst p)" by (simp add: map_of_eq_None_iff)
  then show ?thesis using None by (simp add: merge1_def)
next
  case (Some v)
  then have "k \<in> set (map fst p)" by (metis map_of_eq_None_iff option.distinct(1) set_map)
  then show ?thesis using Some by (simp add: merge1_def update_conv')
qed

lemma merge_field_obj:
  assumes "avatar w = JObj a"
  shows "merge_field k (JObj p) w = (Inr (), w\<lparr>avatar := JObj (merge1 k p a)\<rparr>)"
proof (cases "map_of p k")
  case None
  then have "k \<notin> set (map fst p)" by (simp add: map_of_eq_None_iff)
  then have "merge_field k (JObj p) w = (Inr (), w)" unfolding merge_field_def by simp
  moreover have "w\<lparr>avatar := JObj (merge1 k p a)\<rparr> = w"
    using None avatar_same [OF assms] by (simp only: merge1_def option.case)
  ultimately show ?thesis by simp
next
  case (Some v)
  then have "k \<in> set (map fst p)" by (metis map_of_eq_None_iff option.distinct(1) set_map)
  then show ?thesis unfolding merge_field_def merge1_def using Some assms by simp
qed

lemma merge_three:
  assumes "avatar w = JObj a"
  shows "and_then (merge_field ''x'' (JObj p))
           (and_then (merge_field ''y'' (JObj p)) (merge_field ''state'' (JObj p))) w
         = (Inr (), w\<lparr>avatar := JObj (merge1 ''state'' p (merge1 ''y'' p (merge1 ''x'' p a)))\<rparr>)"
proof -
  let ?a1 = "merge1 ''x'' p a"
  let ?a2 = "merge1 ''y'' p ?a1"
  let ?w1 = "w\<lparr>avatar := JObj ?a1\<rparr>"
  let ?w2 = "w\<lparr>avatar := JObj ?a2\<rparr>"
  have s1: "merge_field ''x'' (JObj p) w = (Inr (), ?w1)"
    by (rule merge_field_obj [OF assms])
  have "avatar ?w1 = JObj ?a1" by simp
  from merge_field_obj [OF this]
  have s2: "merge_field ''y'' (JObj p) ?w1 = (Inr (), ?w2)" by simp
  have "avatar ?w2 = JObj ?a2" by simp
  from merge_field_obj [OF this]
  have s3: "merge_field ''state'' (JObj p) ?w2 = (Inr (), w\<lparr>avatar := JObj (merge1 ''state'' p ?a2)\<rparr>)"
    by simp
  show ?thesis unfolding and_then_def by (simp only: s1 s2 s3 prod.case sum.case)
qed

lemma map_of_merged:
  "map_of (merge1 ''state'' p (merge1 ''y'' p (merge1 ''x'' p a))) k =
     (if k \<in> set [''x'', ''y'', ''state''] \<and> k \<in> set (map fst p) then map_of p k else map_of a k)"
  apply (simp add: map_of_merge1)
  apply blast
  done

text \<open>
  Claim C1, as the code has it. An \<^verbatim>\<open>ACTION_RESULT\<close> frame whose \<^verbatim>\<open>success\<close> is not truthy leaves
  the whole state unchanged and does not raise, whatever the state and the payload.
  With a truthy \<^verbatim>\<open>success\<close>, a payload \<^verbatim>\<open>data\<close> that is a dict \<open>p\<close> (or is
  absent, which reads as the empty dict) and an avatar that is a dict, the handler
  returns, changes no field of the state but the avatar, and the avatar's field \<open>k\<close>
  afterwards is the payload's when \<open>k\<close> is one of \<^verbatim>\<open>x\<close>, \<^verbatim>\<open>y\<close>, \<^verbatim>\<open>state\<close> and
  is present in the payload, and is the avatar's former one for every other \<open>k\<close>.
\<close>

theorem action_result_partial_merge:
  assumes "get d ''type'' = JStr ''ACTION_RESULT''"
  shows "(\<not> truthy (get d ''success'') \<longrightarrow> handle_ws_message (JObj d) w = (Inr (), w)) \<and>
         (truthy (get d ''success'') \<and> get_default d ''data'' (JObj []) = JObj p \<and> avatar w = JObj a \<longrightarrow>
            fst (handle_ws_message (JObj d) w) = Inr () \<and>
            snd (handle_ws_message (JObj d) w) = w\<lparr>avatar := avatar (snd (handle_ws_message (JObj d) w))\<rparr> \<and>
            (\<forall>k. field (avatar (snd (handle_ws_message (JObj d) w))) k =
                  (if k \<in> set [''x'', ''y'', ''state''] \<and> k \<in> set (map fst p)
                   then map_of p k else field (avatar w) k)))"
proof (intro conjI impI)
  assume "\<not> truthy (get d ''success'')"
  then show "handle_ws_message (JObj d) w = (Inr (), w)"
    using assms by (simp add: handle_ws_message_def Let_def)
next
  assume h: "truthy (get d ''success'') \<and> get_default d ''data'' (JObj []) = JObj p \<and> avatar w = JObj a"
  let ?a' = "merge1 ''state'' p (merge1 ''y'' p (merge1 ''x'' p a))"
  have av: "avatar w = JObj a" using h by simp
  have "handle_ws_message (JObj d) w =
          and_then (merge_field ''x'' (JObj p))
            (and_then (merge_field ''y'' (JObj p)) (merge_field ''state'' (JObj p))) w"
    using assms h by (simp add: handle_ws_message_def Let_def)
  then have eq: "handle_ws_message (JObj d) w = (Inr (), w\<lparr>avatar := JObj ?a'\<rparr>)"
    by (simp only: merge_three [OF av])
  show "fst (handle_ws_message (JObj d) w) = Inr ()" by (simp only: eq fst_conv)
  show "snd (handle_ws_message (JObj d) w) = w\<lparr>avatar := avatar (snd (handle_ws_message (JObj d) w))\<rparr>"
    by (simp only: eq snd_conv) simp
  show "\<forall>k. field (avatar (snd (handle_ws_message (JObj d) w))) k =
                  (if k \<in> set [''x'', ''y'', ''state''] \<and> k \<in> set (map fst p)
                   then map_of p k else field (avatar w) k)"
  proof
    fix k
    have "avatar (snd (handle_ws_message (JObj d) w)) = JObj ?a'" by (simp only: eq snd_conv) simp
    then have "field (avatar (snd (handle_ws_message (JObj d) w))) k = map_of ?a' k"
      by (simp add: field_def)
    moreover have "field (avatar w) k = map_of a k" by (simp add: field_def av)
    ultimately show "field (avatar (snd (handle_ws_message (JObj d) w))) k =
                  (if k \<in> set [''x'', ''y'', ''state''] \<and> k \<in> set (map fst p)
                   then map_of p k else field (avatar w) k)"
      by (simp only: map_of_merged)
  qed
qed

text \<open>
  The example of the specification: after \<^verbatim>\<open>{success:true, data:{x:12,y:5}}\<close> the
  avatar \<^verbatim>\<open>{x:10,y:5,name:"Bot1"}\<close> has \<^verbatim>\<open>x\<close> 12 and still the name
  \<^verbatim>\<open>Bot1\<close>; the same frame with \<^verbatim>\<open>success:false\<close> changes nothing.
\<close>

theorem action_result_partial_merge_witness:
  "get [(''type'', JStr ''ACTION_RESULT''), (''success'', JBool True),
        (''data'', JObj [(''x'', JInt 12), (''y'', JInt 5)])] ''type'' = JStr ''ACTION_RESULT'' \<and>
   avatar (demo_world\<lparr>avatar := bot1\<rparr>) = bot1 \<and>
   field (avatar (snd (handle_ws_message
      (JObj [(''type'', JStr ''ACTION_RESULT''), (''success'', JBool True),
             (''data'', JObj [(''x'', JInt 12), (''y'', JInt 5)])])
      (demo_world\<lparr>avatar := bot1\<rparr>)))) ''x'' = Some (JInt 12) \<and>
   field (avatar (snd (handle_ws_message
      (JObj [(''type'', JStr ''ACTION_RESULT''), (''success'', JBool True),
             (''data'', JObj [(''x'', JInt 12), (''y'', JInt 5)])])
      (demo_world\<lparr>avatar := bot1\<rparr>)))) ''name'' = Some (JStr ''Bot1'') \<and>
   handle_ws_message
      (JObj [(''type'', JStr ''ACTION_RESULT''), (''success'', JBool False),
             (''data'', JObj [(''x'', JInt 12), (''y'', JInt 5)])])
      (demo_world\<lparr>avatar := bot1\<rparr>) = (Inr (), demo_world\<lparr>avatar := bot1\<rparr>)"
proof -
  let ?ok = "[(''type'', JStr ''ACTION_RESULT''), (''success'', JBool True),
        (''data'', JObj [(''x'', JInt 12), (''y'', JInt 5)])]"
  let ?no = "[(''type'', JStr ''ACTION_RESULT''), (''success'', JBool False),
        (''data'', JObj [(''x'', JInt 12), (''y'', JInt 5)])]"
  let ?w = "demo_world\<lparr>avatar := bot1\<rparr>"
  have t: "get ?ok ''type'' = JStr ''ACTION_RESULT''" "get ?no ''type'' = JStr ''ACTION_RESULT''"
    by (simp_all add: get_def get_default_def)
  have s: "truthy (get ?ok ''success'')" "\<not> truthy (get ?no ''success'')"
    by (simp_all add: get_def get_default_def)
  have p: "get_default ?ok ''data'' (JObj []) = JObj [(''x'', JInt 12), (''y'', JInt 5)]"
    by (simp add: get_default_def)
  have a: "avatar ?w = JObj [(''x'', JInt 10), (''y'', JInt 5), (''name'', JStr ''Bot1'')]"
    by (simp add: bot1_def)
  note ok = action_result_partial_merge [OF t(1), of ?w "[(''x'', JInt 12), (''y'', JInt 5)]"
      "[(''x'', JInt 10), (''y'', JInt 5), (''name'', JStr ''Bot1'')]", THEN conjunct2, rule_format,
      OF conjI [OF s(1) conjI [OF p a]]]
  note no = action_result_partial_merge [OF t(2), of ?w, THEN conjunct1, rule_format, OF s(2)]
  have x: "field (avatar (snd (handle_ws_message (JObj ?ok) ?w))) ''x'' = Some (JInt 12)"
    using ok [THEN conjunct2, THEN conjunct2, rule_format, of "''x''"] by simp
  have n: "field (avatar (snd (handle_ws_message (JObj ?ok) ?w))) ''name'' = Some (JStr ''Bot1'')"
    using ok [THEN conjunct2, THEN conjunct2, rule_format, of "''name''"] a by (simp add: field_def)
  show ?thesis using t(1) x n no by (simp add: bot1_def)
qed

text \<open>
  Claim C1 as stated, for every frame with \<^verbatim>\<open>success\<close> true, fails: in the state
  after \<^verbatim>\<open>__init__\<close>, where the avatar is \<^verbatim>\<open>None\<close>, a frame with
  \<^verbatim>\<open>success\<close> true and an \<^verbatim>\<open>x\<close> makes the handler raise
  \<^verbatim>\<open>TypeError\<close>; nothing is merged and the avatar has no \<^verbatim>\<open>x\<close> afterwards.
\<close>

theorem action_result_unset_avatar:
  "avatar demo_world = JNull \<and>
   truthy (get [(''type'', JStr ''ACTION_RESULT''), (''success'', JBool True),
                (''data'', JObj [(''x'', JInt 12)])] ''success'') \<and>
   handle_ws_message (JObj [(''type'', JStr ''ACTION_RESULT''), (''success'', JBool True),
                            (''data'', JObj [(''x'', JInt 12)])]) demo_world
     = (Inl TypeError, demo_world) \<and>
   field (avatar (snd (handle_ws_message
      (JObj [(''type'', JStr ''ACTION_RESULT''), (''success'', JBool True),
             (''data'', JObj [(''x'', JInt 12)])]) demo_world))) ''x'' = None"
  by (simp add: handle_ws_message_def Let_def get_def get_default_def and_then_def merge_field_def
      demo_world_simps field_def)

text \<open>
  Claim C2. After an \<^verbatim>\<open>AUTH_SUCCESS\<close> frame, whether the handler returns or raises
  at its \<^verbatim>\<open>print\<close>, \<^verbatim>\<open>connected\<close> (the phase \<^verbatim>\<open>LIVE_CONNECTED\<close>) is set
  and the avatar, the wallet and the license are exactly the frame's \<^verbatim>\<open>avatar\<close>,
  \<^verbatim>\<open>wallet\<close> and \<^verbatim>\<open>license\<close> (\<^verbatim>\<open>None\<close> for an absent one); nothing else
  changes.
\<close>

theorem auth_success_populates:
  assumes "get d ''type'' = JStr ''AUTH_SUCCESS''"
  shows "snd (handle_ws_message (JObj d) w) =
           w\<lparr>connected := True, avatar := get d ''avatar'',
             wallet := get d ''wallet'', license := get d ''license''\<rparr>"
  using assms by (simp add: handle_ws_message_def Let_def split: sum.splits)

theorem auth_success_populates_witness:
  "get [(''type'', JStr ''AUTH_SUCCESS''), (''avatar'', bot1), (''wallet'', JObj [(''cc'', JInt 0)])]
     ''type'' = JStr ''AUTH_SUCCESS'' \<and>
   avatar (snd (handle_ws_message auth_success_frame registered_world)) = bot1 \<and>
   wallet (snd (handle_ws_message auth_success_frame registered_world)) = JObj [(''cc'', JInt 0)] \<and>
   license (snd (handle_ws_message auth_success_frame registered_world)) = JNull \<and>
   connected (snd (handle_ws_message auth_success_frame registered_world))"
proof -
  have t: "get [(''type'', JStr ''AUTH_SUCCESS''), (''avatar'', bot1), (''wallet'', JObj [(''cc'', JInt 0)])]
     ''type'' = JStr ''AUTH_SUCCESS''"
    by (simp add: get_def get_default_def)
  show ?thesis
    using t auth_success_populates [OF t, of registered_world]
    by (simp add: auth_success_frame_def get_def get_default_def)
qed

text \<open>
  Claim C6. A frame (a JSON object) whose \<^verbatim>\<open>type\<close> is none of the six recognized
  kinds, a missing \<^verbatim>\<open>type\<close> included, makes the handler return without an
  exception and leaves every field of the state as it was: the Mirror
  (\<^verbatim>\<open>avatar\<close>, \<^verbatim>\<open>wallet\<close>, \<^verbatim>\<open>license\<close>, \<^verbatim>\<open>world_state\<close>) and
  \<^verbatim>\<open>connected\<close> among them.
\<close>

theorem unknown_kind_ignored:
  assumes "get d ''type'' \<notin> set (map JStr [''AUTH_SUCCESS'', ''AUTH_FAILED'', ''ACTION_RESULT'',
             ''WORLD_STATE'', ''AVATAR_UPDATE'', ''LEDGER_EVENT''])"
  shows "handle_ws_message (JObj d) w = (Inr (), w)"
  using assms by (simp add: handle_ws_message_def Let_def)

theorem unknown_kind_ignored_witness:
  "get [(''type'', JStr ''FUTURE_EVENT'')] ''type'' \<notin>
     set (map JStr [''AUTH_SUCCESS'', ''AUTH_FAILED'', ''ACTION_RESULT'',
             ''WORLD_STATE'', ''AVATAR_UPDATE'', ''LEDGER_EVENT'']) \<and>
   handle_ws_message (JObj [(''type'', JStr ''FUTURE_EVENT'')]) live_world = (Inr (), live_world) \<and>
   handle_ws_message (JObj [(''kind'', JInt 7)]) live_world = (Inr (), live_world)"
proof -
  have a: "get [(''type'', JStr ''FUTURE_EVENT'')] ''type'' \<notin>
     set (map JStr [''AUTH_SUCCESS'', ''AUTH_FAILED'', ''ACTION_RESULT'',
             ''WORLD_STATE'', ''AVATAR_UPDATE'', ''LEDGER_EVENT''])"
    by (simp add: get_def get_default_def)
  have b: "get [(''kind'', JInt 7)] ''type'' \<notin>
     set (map JStr [''AUTH_SUCCESS'', ''AUTH_FAILED'', ''ACTION_RESULT'',
             ''WORLD_STATE'', ''AVATAR_UPDATE'', ''LEDGER_EVENT''])"
    by (simp add: get_def get_default_def)
  show ?thesis
    using a unknown_kind_ignored [OF a, of live_world] unknown_kind_ignored [OF b, of live_world]
    by simp
qed

text \<open>
  Claim C9. The handler raises on well-formed frames: an \<^verbatim>\<open>AUTH_SUCCESS\<close> frame
  without an \<^verbatim>\<open>avatar\<close> raises \<^verbatim>\<open>AttributeError\<close> in any state, and an
  \<^verbatim>\<open>ACTION_RESULT\<close> frame with \<^verbatim>\<open>success\<close> true and an \<^verbatim>\<open>x\<close>, a
  \<^verbatim>\<open>y\<close> or a \<^verbatim>\<open>state\<close> raises \<^verbatim>\<open>TypeError\<close> while the avatar is
  \<^verbatim>\<open>None\<close>, as it is after \<^verbatim>\<open>__init__\<close>.
\<close>

theorem handler_raises:
  "fst (handle_ws_message (JObj [(''type'', JStr ''AUTH_SUCCESS''), (''wallet'', JObj [(''cc'', JInt 0)])]) w)
     = Inl AttributeError \<and>
   avatar (init dflt srv) = JNull \<and>
   handle_ws_message (JObj [(''type'', JStr ''ACTION_RESULT''), (''success'', JBool True),
                            (''data'', JObj [(''x'', JInt 12)])]) (w\<lparr>avatar := JNull\<rparr>)
     = (Inl TypeError, w\<lparr>avatar := JNull\<rparr>) \<and>
   handle_ws_message (JObj [(''type'', JStr ''ACTION_RESULT''), (''success'', JBool True),
                            (''data'', JObj [(''y'', JInt 5)])]) (w\<lparr>avatar := JNull\<rparr>)
     = (Inl TypeError, w\<lparr>avatar := JNull\<rparr>) \<and>
   handle_ws_message (JObj [(''type'', JStr ''ACTION_RESULT''), (''success'', JBool True),
                            (''data'', JObj [(''state'', JStr ''idle'')])]) (w\<lparr>avatar := JNull\<rparr>)
     = (Inl TypeError, w\<lparr>avatar := JNull\<rparr>)"
  by (simp add: handle_ws_message_def Let_def get_def get_default_def attr_get_def init_def
      and_then_def merge_field_def)

subsection \<open>Actions and the channel\<close>

text \<open>
  Claim C3. While \<^verbatim>\<open>connected\<close> is not set, each of the five actions returns
  \<^verbatim>\<open>(False, "Not connected")\<close> and leaves the world as it was: nothing is sent on
  the channel.
\<close>

theorem not_connected_no_send:
  assumes "\<not> connected w"
  shows "move_to x y w = (Inr (False, [Lit ''Not connected'']), w) \<and>
         interact_with stall_id building_id w = (Inr (False, [Lit ''Not connected'']), w) \<and>
         read_notices w = (Inr (False, [Lit ''Not connected'']), w) \<and>
         accept_quest quest_id w = (Inr (False, [Lit ''Not connected'']), w) \<and>
         celebrate w = (Inr (False, [Lit ''Not connected'']), w)"
  using assms
  by (simp add: move_to_def interact_with_def read_notices_def accept_quest_def celebrate_def
      dispatch_def)

theorem not_connected_no_send_witness:
  "\<not> connected registered_world \<and>
   move_to (JInt 3) (JInt 4) registered_world = (Inr (False, [Lit ''Not connected'']), registered_world) \<and>
   celebrate registered_world = (Inr (False, [Lit ''Not connected'']), registered_world) \<and>
   filter is_send (trace (snd (move_to (JInt 3) (JInt 4) registered_world))) = []"
  using not_connected_no_send [of registered_world "JInt 3" "JInt 4"]
  by (simp add: registered_world_simps)

text \<open>
  Claim C7. \<^verbatim>\<open>disconnect_websocket\<close> never raises; it clears \<^verbatim>\<open>connected\<close> and
  \<^verbatim>\<open>_running\<close> and changes no other field of the agent; a second call leaves
  every field of the agent as the first call left it, \<^verbatim>\<open>connected\<close> still
  cleared. The only trace of the second call is that \<^verbatim>\<open>close()\<close> is called once
  more on the channel object, if there is one.
\<close>

theorem disconnect_idempotent:
  "fst (disconnect_websocket w) = Inr () \<and>
   fst (disconnect_websocket (snd (disconnect_websocket w))) = Inr () \<and>
   agent.truncate (snd (disconnect_websocket w)) =
     (agent.truncate w)\<lparr>connected := False, running := False\<rparr> \<and>
   agent.truncate (snd (disconnect_websocket (snd (disconnect_websocket w)))) =
     agent.truncate (snd (disconnect_websocket w)) \<and>
   \<not> connected (snd (disconnect_websocket (snd (disconnect_websocket w)))) \<and>
   snd (disconnect_websocket (snd (disconnect_websocket w))) =
     (snd (disconnect_websocket w))
       \<lparr>trace := trace (snd (disconnect_websocket w)) @
                   (case ws w of None \<Rightarrow> [] | Some c \<Rightarrow> [ChannelClose c])\<rparr>"
  by (cases "ws w") (simp_all add: disconnect_websocket_def Let_def agent.truncate_def)

text \<open>
  Claim C10. With \<^verbatim>\<open>connected\<close> set, \<^verbatim>\<open>connect_websocket\<close> leaves the whole
  world as it was (no channel object is created, no thread is started, nothing is sent,
  no field changes), whatever the background does; and with the library installed and
  credentials loaded, as they are in every session that \<^verbatim>\<open>connect_websocket\<close>
  itself brought to \<^verbatim>\<open>connected\<close>, it returns \<^verbatim>\<open>(True, "Already connected")\<close>.
\<close>

theorem connect_when_connected:
  assumes "connected w"
  shows "snd (connect_websocket sched w) = w \<and>
         (has_websocket w \<and> truthy (credentials w) \<longrightarrow>
            connect_websocket sched w = (Inr (True, [Lit ''Already connected'']), w))"
  using assms by (simp add: connect_websocket_def)

theorem connect_when_connected_witness:
  "connected live_world \<and> has_websocket live_world \<and> truthy (credentials live_world) \<and>
   connect_websocket [[(0, OnClose)]] live_world = (Inr (True, [Lit ''Already connected'']), live_world)"
proof -
  have c: "connected live_world" by (simp add: live_world_eq)
  have h: "has_websocket live_world \<and> truthy (credentials live_world)"
    by (simp add: live_world_eq registered_world_simps demo_credentials_def)
  show ?thesis
    using c h connect_when_connected [OF c, of "[[(0, OnClose)]]"] by simp
qed

subsection \<open>The background thread and the wait for the handshake\<close>

lemma merge_field_frame: "\<exists>a. snd (merge_field k ad w) = w\<lparr>avatar := a\<rparr>"
proof (cases "snd (merge_field k ad w) = w")
  case True
  have "w\<lparr>avatar := avatar w\<rparr> = w" by simp
  then show ?thesis using True by metis
next
  case False
  then show ?thesis
    unfolding merge_field_def
    by (auto split: sum.splits bool.splits)
qed

lemma and_then_frame:
  assumes "\<And>w. \<exists>a. snd (f w) = w\<lparr>avatar := a\<rparr>" and "\<And>w. \<exists>a. snd (g w) = w\<lparr>avatar := a\<rparr>"
  shows "\<exists>a. snd (and_then f g w) = w\<lparr>avatar := a\<rparr>"
proof (cases "f w")
  case (Pair r w1)
  obtain a1 where a1: "w1 = w\<lparr>avatar := a1\<rparr>" using assms(1) [of w] Pair by auto
  show ?thesis
  proof (cases r)
    case (Inl e)
    then show ?thesis using Pair a1 by (auto simp: and_then_def)
  next
    case (Inr u)
    obtain a2 where "snd (g w1) = w1\<lparr>avatar := a2\<rparr>" using assms(2) [of w1] by auto
    then have "snd (and_then f g w) = w\<lparr>avatar := a2\<rparr>"
      using Pair Inr a1 by (simp add: and_then_def)
    then show ?thesis by blast
  qed
qed

lemma merge_all_frame:
  "\<exists>a. snd (and_then (merge_field ''x'' ad)
              (and_then (merge_field ''y'' ad) (merge_field ''state'' ad)) w) = w\<lparr>avatar := a\<rparr>"
  by (intro and_then_frame merge_field_frame)

lemma handle_ws_message_frame:
  "\<exists>c a wl l s. snd (handle_ws_message data w) =
      w\<lparr>connected := c, avatar := a, wallet := wl, license := l, world_state := s\<rparr>"
proof -
  have keep: "\<exists>c a wl l s. w = w\<lparr>connected := c, avatar := a, wallet := wl, license := l, world_state := s\<rparr>"
  proof -
    have "w = w\<lparr>connected := connected w, avatar := avatar w, wallet := wallet w,
                license := license w, world_state := world_state w\<rparr>" by simp
    then show ?thesis by blast
  qed
  have av: "\<exists>c a' wl l s. w\<lparr>avatar := a\<rparr> =
      w\<lparr>connected := c, avatar := a', wallet := wl, license := l, world_state := s\<rparr>" for a
  proof -
    have "w\<lparr>avatar := a\<rparr> = w\<lparr>connected := connected w, avatar := a, wallet := wallet w,
                license := license w, world_state := world_state w\<rparr>" by simp
    then show ?thesis by blast
  qed
  have ws: "\<exists>c a' wl l s'. w\<lparr>world_state := s\<rparr> =
      w\<lparr>connected := c, avatar := a', wallet := wl, license := l, world_state := s'\<rparr>" for s
  proof -
    have "w\<lparr>world_state := s\<rparr> = w\<lparr>connected := connected w, avatar := avatar w, wallet := wallet w,
                license := license w, world_state := s\<rparr>" by simp
    then show ?thesis by blast
  qed
  have au: "\<exists>c' a' wl' l' s. w\<lparr>connected := c, avatar := a, wallet := wl, license := l\<rparr> =
      w\<lparr>connected := c', avatar := a', wallet := wl', license := l', world_state := s\<rparr>" for c a wl l
  proof -
    have "w\<lparr>connected := c, avatar := a, wallet := wl, license := l\<rparr> =
       w\<lparr>connected := c, avatar := a, wallet := wl, license := l, world_state := world_state w\<rparr>" by simp
    then show ?thesis by blast
  qed
  show ?thesis
  proof (cases data)
    case (JObj d)
    consider "get d ''type'' = JStr ''AUTH_SUCCESS''"
      | "get d ''type'' \<noteq> JStr ''AUTH_SUCCESS''" "get d ''type'' = JStr ''ACTION_RESULT''" "truthy (get d ''success'')"
      | "get d ''type'' \<noteq> JStr ''AUTH_SUCCESS''" "get d ''type'' = JStr ''ACTION_RESULT''" "\<not> truthy (get d ''success'')"
      | "get d ''type'' = JStr ''WORLD_STATE''"
      | "get d ''type'' \<noteq> JStr ''AUTH_SUCCESS''" "get d ''type'' \<noteq> JStr ''ACTION_RESULT''" "get d ''type'' \<noteq> JStr ''WORLD_STATE''"
      by blast
    then show ?thesis
    proof cases
      case 1
      then have "snd (handle_ws_message data w) = w\<lparr>connected := True, avatar := get d ''avatar'',
             wallet := get d ''wallet'', license := get d ''license''\<rparr>"
        using JObj by (simp add: handle_ws_message_def Let_def split: sum.splits)
      then show ?thesis using au by simp
    next
      case 2
      then have "snd (handle_ws_message data w) =
         snd (and_then (merge_field ''x'' (get_default d ''data'' (JObj [])))
              (and_then (merge_field ''y'' (get_default d ''data'' (JObj [])))
                 (merge_field ''state'' (get_default d ''data'' (JObj [])))) w)"
        using JObj by (simp add: handle_ws_message_def Let_def)
      then show ?thesis using merge_all_frame [of "get_default d ''data'' (JObj [])" w] av by metis
    next
      case 3
      then have "snd (handle_ws_message data w) = w"
        using JObj by (simp add: handle_ws_message_def Let_def)
      then show ?thesis using keep by simp
    next
      case 4
      then have "snd (handle_ws_message data w) = w\<lparr>world_state := get d ''state''\<rparr>"
        using JObj by (simp add: handle_ws_message_def Let_def)
      then show ?thesis using ws by simp
    next
      case 5
      then have "snd (handle_ws_message data w) = w"
        using JObj by (simp add: handle_ws_message_def Let_def split: sum.splits)
      then show ?thesis using keep by simp
    qed
  next
  qed (use keep in \<open>simp_all add: handle_ws_message_def\<close>)
qed


lemma on_open_cases:
  "snd (on_open c w) = w \<or> (\<exists>f. snd (on_open c w) = w\<lparr>trace := trace w @ [Send c f]\<rparr>)"
  by (auto simp: on_open_def send_on_def split: sum.splits)

lemma bg_step_cases:
  "bg_step te w = w
   \<or> (\<exists>c a wl l s. bg_step te w =
         w\<lparr>connected := c, avatar := a, wallet := wl, license := l, world_state := s\<rparr>)
   \<or> (\<exists>c f. bg_step te w = w\<lparr>trace := trace w @ [Send c f]\<rparr>)
   \<or> (\<exists>t. bg_step te w = w\<lparr>threads := (threads w)[t := InSleep]\<rparr>)
   \<or> (running w \<and> (\<exists>t c. bg_step te w =
         w\<lparr>threads := (threads w)[t := InRunForever c], trace := trace w @ [RunForever t c]\<rparr>))
   \<or> (\<not> running w \<and> (\<exists>t. bg_step te w = w\<lparr>threads := (threads w)[t := Exited]\<rparr>))"
proof (cases te)
  case (Pair t e)
  show ?thesis
  proof (cases "t < length (threads w)")
    case False
    then show ?thesis using Pair by (simp add: bg_step_def)
  next
    case True
    show ?thesis
    proof (cases "threads w ! t")
      case Exited
      then show ?thesis using Pair True by (simp add: bg_step_def)
    next
      case InSleep
      show ?thesis
      proof (cases "e = SleepEnds")
        case False
        then have "bg_step te w = w" using Pair True InSleep by (cases e) (simp_all add: bg_step_def)
        then show ?thesis by simp
      next
        case e: True
        then have b: "bg_step te w = ws_run t w" using Pair True InSleep by (simp add: bg_step_def)
        show ?thesis
        proof (cases "running w")
          case False
          then have "bg_step te w = w\<lparr>threads := (threads w)[t := Exited]\<rparr>"
            using b by (simp add: ws_run_def)
          then show ?thesis using False by blast
        next
          case r: True
          show ?thesis
          proof (cases "ws w")
            case None
            then have "bg_step te w = w\<lparr>threads := (threads w)[t := InSleep]\<rparr>"
              using b r by (simp add: ws_run_def)
            then show ?thesis by blast
          next
            case (Some c)
            then have "bg_step te w =
               w\<lparr>threads := (threads w)[t := InRunForever c], trace := trace w @ [RunForever t c]\<rparr>"
              using b r by (simp add: ws_run_def)
            then show ?thesis using r by blast
          qed
        qed
      qed
    next
      case (InRunForever c)
      show ?thesis
      proof (cases e)
        case OnOpen
        then have "bg_step te w = snd (on_open c w)"
          using Pair True InRunForever by (simp add: bg_step_def)
        then show ?thesis using on_open_cases [of c w] by metis
      next
        case (OnMessage m)
        then have b: "bg_step te w = snd (on_message m w)"
          using Pair True InRunForever by (simp add: bg_step_def)
        show ?thesis
        proof (cases m)
          case Malformed
          then show ?thesis using b by (simp add: on_message_def)
        next
          case (Text data)
          then have "bg_step te w = snd (handle_ws_message data w)" using b by (simp add: on_message_def)
          then show ?thesis using handle_ws_message_frame [of data w] by metis
        qed
      next
        case OnError
        then show ?thesis using Pair True InRunForever by (simp add: bg_step_def on_error_def)
      next
        case OnClose
        then have "bg_step te w = w\<lparr>connected := False, avatar := avatar w, wallet := wallet w,
             license := license w, world_state := world_state w\<rparr>"
          using Pair True InRunForever by (simp add: bg_step_def on_close_def)
        then show ?thesis by blast
      next
        case RunReturns
        then have "bg_step te w = w\<lparr>threads := (threads w)[t := InSleep]\<rparr>"
          using Pair True InRunForever by (simp add: bg_step_def)
        then show ?thesis by blast
      next
        case SleepEnds
        then show ?thesis using Pair True InRunForever by (simp add: bg_step_def)
      qed
    qed
  qed
qed

lemma bg_step_running: "running (bg_step te w) = running w"
  using bg_step_cases [of te w] by (elim disjE exE conjE) simp_all

lemma bg_step_ws: "ws (bg_step te w) = ws w"
  using bg_step_cases [of te w] by (elim disjE exE conjE) simp_all

lemma bg_step_length: "length (threads (bg_step te w)) = length (threads w)"
  using bg_step_cases [of te w] by (elim disjE exE conjE) simp_all

lemma bg_step_closes: "filter is_close (trace (bg_step te w)) = filter is_close (trace w)"
  using bg_step_cases [of te w] by (elim disjE exE conjE) simp_all

lemma bg_step_attempts_stopped: "\<not> running w \<Longrightarrow> attempts (bg_step te w) = attempts w"
  using bg_step_cases [of te w] by (elim disjE exE conjE) (simp_all add: attempts_def)

lemma bg_step_attempts_mono: "attempts w \<le> attempts (bg_step te w)"
  using bg_step_cases [of te w] by (elim disjE exE conjE) (simp_all add: attempts_def)

lemma update_alive:
  "i < length xs \<Longrightarrow> xs ! i \<noteq> Exited \<Longrightarrow> v \<noteq> Exited \<Longrightarrow> xs[t := v] ! i \<noteq> Exited"
  by (cases "t = i") simp_all

lemma bg_step_alive:
  "running w \<Longrightarrow> i < length (threads w) \<Longrightarrow> threads w ! i \<noteq> Exited \<Longrightarrow>
   threads (bg_step te w) ! i \<noteq> Exited"
  using bg_step_cases [of te w]
  by (elim disjE exE conjE) (simp_all add: update_alive)


lemma handle_ws_message_connected:
  assumes "\<And>d. data = JObj d \<Longrightarrow> get d ''type'' \<noteq> JStr ''AUTH_SUCCESS''"
  shows "connected (snd (handle_ws_message data w)) = connected w"
proof (cases data)
  case (JObj d)
  then have n: "get d ''type'' \<noteq> JStr ''AUTH_SUCCESS''" using assms by simp
  show ?thesis
  proof (cases "get d ''type'' = JStr ''ACTION_RESULT'' \<and> truthy (get d ''success'')")
    case True
    then have "snd (handle_ws_message data w) =
         snd (and_then (merge_field ''x'' (get_default d ''data'' (JObj [])))
              (and_then (merge_field ''y'' (get_default d ''data'' (JObj [])))
                 (merge_field ''state'' (get_default d ''data'' (JObj [])))) w)"
      using JObj n by (simp add: handle_ws_message_def Let_def)
    moreover obtain a where "snd (and_then (merge_field ''x'' (get_default d ''data'' (JObj [])))
              (and_then (merge_field ''y'' (get_default d ''data'' (JObj [])))
                 (merge_field ''state'' (get_default d ''data'' (JObj [])))) w) = w\<lparr>avatar := a\<rparr>"
      using merge_all_frame [of "get_default d ''data'' (JObj [])" w] by blast
    ultimately show ?thesis by simp
  next
    case False
    then show ?thesis using JObj n
      by (auto simp: handle_ws_message_def Let_def split: sum.splits)
  qed
qed (simp_all add: handle_ws_message_def)

lemma bg_step_connected:
  assumes "\<not> is_auth_success te" and "\<not> connected w"
  shows "\<not> connected (bg_step te w)"
proof (cases te)
  case (Pair t e)
  show ?thesis
  proof (cases "\<exists>data. e = OnMessage (Text data) \<and> t < length (threads w) \<and>
                  (\<exists>c. threads w ! t = InRunForever c)")
    case True
    then obtain data c where e: "e = OnMessage (Text data)" and t: "t < length (threads w)"
      and pc: "threads w ! t = InRunForever c" by blast
    have "get d ''type'' \<noteq> JStr ''AUTH_SUCCESS''" if "data = JObj d" for d
      using assms(1) Pair e that by simp
    then have "connected (snd (handle_ws_message data w)) = connected w"
      by (rule handle_ws_message_connected)
    moreover have "bg_step te w = snd (handle_ws_message data w)"
      using Pair e t pc by (simp add: bg_step_def on_message_def)
    ultimately show ?thesis using assms(2) by simp
  next
    case False
    have "bg_step te w = w \<or> \<not> connected (bg_step te w)"
    proof (cases "t < length (threads w)")
      case out: False
      then show ?thesis using Pair by (simp add: bg_step_def)
    next
      case t: True
      show ?thesis
      proof (cases "threads w ! t")
        case Exited
        then show ?thesis using Pair t by (simp add: bg_step_def)
      next
        case InSleep
        then show ?thesis using Pair t assms(2)
          by (cases e) (auto simp: bg_step_def ws_run_def split: option.splits)
      next
        case (InRunForever c)
        show ?thesis
        proof (cases e)
          case OnOpen
          then show ?thesis using Pair t InRunForever assms(2) on_open_cases [of c w]
            by (auto simp: bg_step_def)
        next
          case (OnMessage m)
          then have "m = Malformed" using False t InRunForever by (cases m) auto
          then show ?thesis using Pair t InRunForever OnMessage
            by (simp add: bg_step_def on_message_def)
        qed (use Pair t InRunForever assms(2) in \<open>simp_all add: bg_step_def on_error_def on_close_def\<close>)
      qed
    qed
    then show ?thesis using assms(2) by auto
  qed
qed

lemma deliver_append: "deliver (xs @ ys) w = deliver ys (deliver xs w)"
  by (induction xs arbitrary: w) simp_all

lemma deliver_running: "running (deliver tes w) = running w"
  by (induction tes arbitrary: w) (simp_all add: bg_step_running)

lemma deliver_ws: "ws (deliver tes w) = ws w"
  by (induction tes arbitrary: w) (simp_all add: bg_step_ws)

lemma deliver_length: "length (threads (deliver tes w)) = length (threads w)"
  by (induction tes arbitrary: w) (simp_all add: bg_step_length)

lemma deliver_closes: "filter is_close (trace (deliver tes w)) = filter is_close (trace w)"
  by (induction tes arbitrary: w) (simp_all add: bg_step_closes)

lemma deliver_attempts_stopped: "\<not> running w \<Longrightarrow> attempts (deliver tes w) = attempts w"
  by (induction tes arbitrary: w) (simp_all add: bg_step_attempts_stopped bg_step_running)

lemma deliver_attempts_mono: "attempts w \<le> attempts (deliver tes w)"
proof (induction tes arbitrary: w)
  case Nil
  show ?case by simp
next
  case (Cons te tes)
  have "attempts w \<le> attempts (bg_step te w)" by (rule bg_step_attempts_mono)
  also have "\<dots> \<le> attempts (deliver tes (bg_step te w))" by (rule Cons.IH)
  finally show ?case by simp
qed

lemma deliver_alive:
  "running w \<Longrightarrow> i < length (threads w) \<Longrightarrow> threads w ! i \<noteq> Exited \<Longrightarrow>
   threads (deliver tes w) ! i \<noteq> Exited"
proof (induction tes arbitrary: w)
  case Nil
  then show ?case by simp
next
  case (Cons te tes)
  have "threads (deliver tes (bg_step te w)) ! i \<noteq> Exited"
    using Cons.prems by (intro Cons.IH) (simp_all add: bg_step_running bg_step_length bg_step_alive)
  then show ?case by simp
qed

lemma deliver_connected:
  "\<forall>te\<in>set tes. \<not> is_auth_success te \<Longrightarrow> \<not> connected w \<Longrightarrow> \<not> connected (deliver tes w)"
  by (induction tes arbitrary: w) (simp_all add: bg_step_connected)

lemma wait_timeout:
  assumes "\<not> connected w" and "\<forall>b\<in>set sched. \<forall>te\<in>set b. \<not> is_auth_success te"
  shows "wait_for_connection n sched w =
           (Inr (False, [Lit ''Connection timeout'']), deliver (concat (take n sched)) w)"
  using assms
proof (induction n arbitrary: sched w)
  case 0
  show ?case by simp
next
  case (Suc n)
  show ?case
  proof (cases sched)
    case Nil
    have "wait_for_connection n [] w =
           (Inr (False, [Lit ''Connection timeout'']), deliver (concat (take n [])) w)"
      using Suc.prems(1) by (intro Suc.IH) simp_all
    then show ?thesis using Nil Suc.prems(1) by simp
  next
    case (Cons b bs)
    have nb: "\<forall>te\<in>set b. \<not> is_auth_success te" using Suc.prems(2) Cons by simp
    have c: "\<not> connected (deliver b w)" using nb Suc.prems(1) by (rule deliver_connected)
    have "wait_for_connection n bs (deliver b w) =
           (Inr (False, [Lit ''Connection timeout'']), deliver (concat (take n bs)) (deliver b w))"
      using c Suc.prems(2) Cons by (intro Suc.IH) simp_all
    then show ?thesis using Cons Suc.prems(1) by (simp add: deliver_append)
  qed
qed


lemma connect_starts:
  assumes "has_websocket w" and "truthy (credentials w)" and "\<not> connected w"
  shows "connect_websocket sched w =
     (case sched of
        [] \<Rightarrow> wait_for_connection 50 []
          (w\<lparr>ws := Some (channels w), channels := Suc (channels w), running := True,
             ws_thread := Some (length (threads w)),
             threads := threads w @ [InRunForever (channels w)],
             trace := trace w @ [NewChannel (channels w) (ws_url w), ThreadStart (length (threads w)),
                                 RunForever (length (threads w)) (channels w)]\<rparr>)
      | b # bs \<Rightarrow> wait_for_connection 50 bs (deliver b
          (w\<lparr>ws := Some (channels w), channels := Suc (channels w), running := True,
             ws_thread := Some (length (threads w)),
             threads := threads w @ [InRunForever (channels w)],
             trace := trace w @ [NewChannel (channels w) (ws_url w), ThreadStart (length (threads w)),
                                 RunForever (length (threads w)) (channels w)]\<rparr>)))"
  using assms by (simp add: connect_websocket_def Let_def ws_run_def split: list.splits)

lemma connect_timeout:
  assumes "has_websocket w" and "truthy (credentials w)" and "\<not> connected w"
    and "\<forall>b\<in>set sched. \<forall>te\<in>set b. \<not> is_auth_success te"
  shows "\<exists>tes. connect_websocket sched w =
     (Inr (False, [Lit ''Connection timeout'']), deliver tes
          (w\<lparr>ws := Some (channels w), channels := Suc (channels w), running := True,
             ws_thread := Some (length (threads w)),
             threads := threads w @ [InRunForever (channels w)],
             trace := trace w @ [NewChannel (channels w) (ws_url w), ThreadStart (length (threads w)),
                                 RunForever (length (threads w)) (channels w)]\<rparr>))"
proof -
  let ?w3 = "w\<lparr>ws := Some (channels w), channels := Suc (channels w), running := True,
             ws_thread := Some (length (threads w)),
             threads := threads w @ [InRunForever (channels w)],
             trace := trace w @ [NewChannel (channels w) (ws_url w), ThreadStart (length (threads w)),
                                 RunForever (length (threads w)) (channels w)]\<rparr>"
  have c3: "\<not> connected ?w3" using assms(3) by simp
  show ?thesis
  proof (cases sched)
    case Nil
    have "wait_for_connection 50 [] ?w3 =
            (Inr (False, [Lit ''Connection timeout'']), deliver (concat (take 50 [])) ?w3)"
      using c3 by (intro wait_timeout) simp_all
    then have "connect_websocket sched w = (Inr (False, [Lit ''Connection timeout'']), deliver [] ?w3)"
      using connect_starts [OF assms(1-3), of sched] Nil by simp
    then show ?thesis by blast
  next
    case (Cons b bs)
    have nb: "\<forall>te\<in>set b. \<not> is_auth_success te" using assms(4) Cons by simp
    have c: "\<not> connected (deliver b ?w3)" using nb c3 by (rule deliver_connected)
    have "wait_for_connection 50 bs (deliver b ?w3) =
            (Inr (False, [Lit ''Connection timeout'']), deliver (concat (take 50 bs)) (deliver b ?w3))"
      using c assms(4) Cons by (intro wait_timeout) simp_all
    then have "connect_websocket sched w =
        (Inr (False, [Lit ''Connection timeout'']), deliver (b @ concat (take 50 bs)) ?w3)"
      using connect_starts [OF assms(1-3), of sched] Cons by (simp add: deliver_append)
    then show ?thesis by blast
  qed
qed

lemma handshake_outcome_auth_success: "\<not> is_handshake_outcome te \<Longrightarrow> \<not> is_auth_success te"
  by (cases te rule: is_handshake_outcome.cases) simp_all

text \<open>
  Claim C4, as the code has it. When the library is installed, credentials are loaded,
  \<^verbatim>\<open>connected\<close> is not set and neither an \<^verbatim>\<open>AUTH_SUCCESS\<close> nor an
  \<^verbatim>\<open>AUTH_FAILED\<close> frame arrives during the wait, \<^verbatim>\<open>connect_websocket\<close>
  returns \<^verbatim>\<open>(False, "Connection timeout")\<close>, and the channel is not torn down:
  \<^verbatim>\<open>_running\<close> is still set, \<^verbatim>\<open>self.ws\<close> holds the channel object created
  for the attempt, \<^verbatim>\<open>close()\<close> has not been called on any channel, and the
  thread started for the attempt has not left its loop, in which it has called
  \<^verbatim>\<open>run_forever\<close> at least once.
\<close>

theorem connect_timeout_keeps_channel:
  assumes "has_websocket w" and "truthy (credentials w)" and "\<not> connected w"
    and "\<forall>b\<in>set sched. \<forall>te\<in>set b. \<not> is_handshake_outcome te"
  shows "fst (connect_websocket sched w) = Inr (False, [Lit ''Connection timeout'']) \<and>
         running (snd (connect_websocket sched w)) \<and>
         ws (snd (connect_websocket sched w)) = Some (channels w) \<and>
         filter is_close (trace (snd (connect_websocket sched w))) = filter is_close (trace w) \<and>
         length (threads (snd (connect_websocket sched w))) = Suc (length (threads w)) \<and>
         threads (snd (connect_websocket sched w)) ! length (threads w) \<noteq> Exited \<and>
         attempts w < attempts (snd (connect_websocket sched w))"
proof -
  let ?w3 = "w\<lparr>ws := Some (channels w), channels := Suc (channels w), running := True,
             ws_thread := Some (length (threads w)),
             threads := threads w @ [InRunForever (channels w)],
             trace := trace w @ [NewChannel (channels w) (ws_url w), ThreadStart (length (threads w)),
                                 RunForever (length (threads w)) (channels w)]\<rparr>"
  have "\<forall>b\<in>set sched. \<forall>te\<in>set b. \<not> is_auth_success te"
    using assms(4) handshake_outcome_auth_success by blast
  then obtain tes where r: "connect_websocket sched w =
      (Inr (False, [Lit ''Connection timeout'']), deliver tes ?w3)"
    using connect_timeout [OF assms(1-3)] by blast
  have 1: "running (deliver tes ?w3)" by (simp add: deliver_running)
  have 2: "ws (deliver tes ?w3) = Some (channels w)" by (simp add: deliver_ws)
  have 3: "filter is_close (trace (deliver tes ?w3)) = filter is_close (trace w)"
    by (simp add: deliver_closes)
  have 4: "length (threads (deliver tes ?w3)) = Suc (length (threads w))"
    by (simp add: deliver_length)
  have 5: "threads (deliver tes ?w3) ! length (threads w) \<noteq> Exited"
    by (rule deliver_alive) simp_all
  have "attempts ?w3 = Suc (attempts w)" by (simp add: attempts_def)
  moreover have "attempts ?w3 \<le> attempts (deliver tes ?w3)" by (rule deliver_attempts_mono)
  ultimately have 6: "attempts w < attempts (deliver tes ?w3)" by simp
  show ?thesis using r 1 2 3 4 5 6 by simp
qed

text \<open>
  Claim C4 as stated fails: with no background event at all during the wait, the attempt
  is reported as timed out while \<^verbatim>\<open>_running\<close> is still set, the thread is still
  inside \<^verbatim>\<open>run_forever\<close> and no channel has been closed.
\<close>

theorem connect_timeout_no_teardown:
  "fst (connect_websocket [] registered_world) = Inr (False, [Lit ''Connection timeout'']) \<and>
   running (snd (connect_websocket [] registered_world)) \<and>
   threads (snd (connect_websocket [] registered_world)) = [InRunForever 0] \<and>
   filter is_close (trace (snd (connect_websocket [] registered_world))) = []"
proof -
  let ?w3 = "registered_world\<lparr>ws := Some 0, channels := Suc 0, running := True,
             ws_thread := Some 0, threads := [InRunForever 0],
             trace := [NewChannel 0 (ws_url registered_world), ThreadStart 0, RunForever 0 0]\<rparr>"
  have g: "has_websocket registered_world" "truthy (credentials registered_world)"
    "\<not> connected registered_world"
    by (simp_all add: registered_world_simps demo_credentials_def)
  have "wait_for_connection 50 [] ?w3 =
          (Inr (False, [Lit ''Connection timeout'']), deliver (concat (take 50 [])) ?w3)"
    by (intro wait_timeout) (simp_all add: registered_world_simps)
  then have "connect_websocket [] registered_world = (Inr (False, [Lit ''Connection timeout'']), ?w3)"
    using connect_starts [OF g, of "[]"] by (simp add: registered_world_simps)
  then show ?thesis by simp
qed


theorem connect_timeout_keeps_channel_witness:
  "has_websocket registered_world \<and> truthy (credentials registered_world) \<and>
   \<not> connected registered_world \<and>
   (list_all (list_all (\<lambda>te. \<not> is_handshake_outcome te))
      [[(0, OnOpen)], [(0, OnMessage Malformed)], [(0, OnClose), (0, RunReturns), (0, SleepEnds)]]) \<and>
   fst (connect_websocket
          [[(0, OnOpen)], [(0, OnMessage Malformed)], [(0, OnClose), (0, RunReturns), (0, SleepEnds)]]
          registered_world) = Inr (False, [Lit ''Connection timeout'']) \<and>
   running (snd (connect_websocket
          [[(0, OnOpen)], [(0, OnMessage Malformed)], [(0, OnClose), (0, RunReturns), (0, SleepEnds)]]
          registered_world)) \<and>
   ws (snd (connect_websocket
          [[(0, OnOpen)], [(0, OnMessage Malformed)], [(0, OnClose), (0, RunReturns), (0, SleepEnds)]]
          registered_world)) = Some 0 \<and>
   filter is_close (trace (snd (connect_websocket
          [[(0, OnOpen)], [(0, OnMessage Malformed)], [(0, OnClose), (0, RunReturns), (0, SleepEnds)]]
          registered_world))) = []"
proof -
  let ?sched = "[[(0, OnOpen)], [(0, OnMessage Malformed)], [(0, OnClose), (0, RunReturns), (0, SleepEnds)]]"
  have g: "has_websocket registered_world" "truthy (credentials registered_world)"
    "\<not> connected registered_world"
    by (simp_all add: registered_world_simps demo_credentials_def)
  have h: "\<forall>b\<in>set ?sched. \<forall>te\<in>set b. \<not> is_handshake_outcome te" by simp
  show ?thesis
    using g connect_timeout_keeps_channel [OF g h]
    by (simp add: registered_world_simps)
qed

lemma reconnect_after:
  assumes "t < length (threads w)" and "threads w ! t = InRunForever c" and "running w"
    and "ws w = Some c'" and "e = OnClose \<or> e = OnError"
  shows "attempts (deliver [(t, e), (t, RunReturns), (t, SleepEnds)] w) = Suc (attempts w)"
proof -
  have 1: "bg_step (t, e) w = w\<lparr>connected := (if e = OnClose then False else connected w)\<rparr>"
    using assms by (auto simp: bg_step_def on_close_def on_error_def)
  let ?w1 = "w\<lparr>connected := (if e = OnClose then False else connected w)\<rparr>"
  have 2: "bg_step (t, RunReturns) ?w1 = ?w1\<lparr>threads := (threads w)[t := InSleep]\<rparr>"
    using assms by (simp add: bg_step_def)
  let ?w2 = "?w1\<lparr>threads := (threads w)[t := InSleep]\<rparr>"
  have 3: "bg_step (t, SleepEnds) ?w2 =
      ?w2\<lparr>threads := (threads ?w2)[t := InRunForever c'], trace := trace ?w2 @ [RunForever t c']\<rparr>"
    using assms by (simp add: bg_step_def ws_run_def)
  have "deliver [(t, e), (t, RunReturns), (t, SleepEnds)] w =
      ?w2\<lparr>threads := (threads ?w2)[t := InRunForever c'], trace := trace ?w2 @ [RunForever t c']\<rparr>"
    by (simp only: deliver.simps 1 2 3)
  then show ?thesis by (simp add: attempts_def)
qed

text \<open>
  Claim C5, as the code has it. While \<^verbatim>\<open>_running\<close> is set, a thread whose channel
  closes or errors, so that \<^verbatim>\<open>run_forever\<close> returns, calls
  \<^verbatim>\<open>run_forever\<close> again when its one-second sleep ends: one more connection
  attempt, with no call from the foreground. After \<^verbatim>\<open>disconnect_websocket\<close>,
  which clears \<^verbatim>\<open>_running\<close>, no run of background events makes a further
  attempt.
\<close>

theorem reconnects_until_disconnect:
  "(t < length (threads w) \<and> threads w ! t = InRunForever c \<and> running w \<and> ws w = Some c' \<longrightarrow>
      attempts (deliver [(t, OnClose), (t, RunReturns), (t, SleepEnds)] w) = Suc (attempts w) \<and>
      attempts (deliver [(t, OnError), (t, RunReturns), (t, SleepEnds)] w) = Suc (attempts w)) \<and>
   attempts (deliver tes (snd (disconnect_websocket w))) = attempts w"
proof (intro conjI impI)
  assume h: "t < length (threads w) \<and> threads w ! t = InRunForever c \<and> running w \<and> ws w = Some c'"
  show "attempts (deliver [(t, OnClose), (t, RunReturns), (t, SleepEnds)] w) = Suc (attempts w)"
    using h by (intro reconnect_after [of t w c c']) simp_all
  show "attempts (deliver [(t, OnError), (t, RunReturns), (t, SleepEnds)] w) = Suc (attempts w)"
    using h by (intro reconnect_after [of t w c c']) simp_all
next
  have "\<not> running (snd (disconnect_websocket w))"
    by (simp add: disconnect_websocket_def Let_def split: option.splits)
  then have "attempts (deliver tes (snd (disconnect_websocket w))) =
      attempts (snd (disconnect_websocket w))"
    by (rule deliver_attempts_stopped)
  also have "\<dots> = attempts w"
    by (simp add: disconnect_websocket_def Let_def attempts_def split: option.splits)
  finally show "attempts (deliver tes (snd (disconnect_websocket w))) = attempts w" .
qed

lemma live_world_simps:
  "connected live_world" "running live_world" "threads live_world = [InRunForever 0]"
  "ws live_world = Some 0" "attempts live_world = 1" "has_websocket live_world"
  "credentials live_world = demo_credentials"
  "trace live_world =
     [NewChannel 0 ''ws://localhost:5173/api/world/ws'', ThreadStart 0, RunForever 0 0,
      Send 0 (JObj [(''type'', JStr ''BOT_AUTH''), (''botId'', JStr ''bot-1''),
                    (''token'', JStr ''key-1'')])]"
  by (simp_all add: live_world_eq attempts_def registered_world_simps)

theorem reconnects_until_disconnect_witness:
  "0 < length (threads live_world) \<and> threads live_world ! 0 = InRunForever 0 \<and>
   running live_world \<and> ws live_world = Some 0 \<and>
   attempts (deliver [(0, OnClose), (0, RunReturns), (0, SleepEnds)] live_world) = 2 \<and>
   attempts (deliver [(0, OnClose), (0, RunReturns), (0, SleepEnds)]
               (snd (disconnect_websocket live_world))) = 1"
  using reconnects_until_disconnect [of 0 live_world 0 0 "[(0, OnClose), (0, RunReturns), (0, SleepEnds)]"]
  by (simp add: live_world_simps)

text \<open>
  Claim C5 as stated fails: in the established session of the example, the channel
  closes, \<^verbatim>\<open>run_forever\<close> returns and the sleep ends; the thread then makes a
  second connection attempt, and when that channel opens the auth frame is sent again.
  No foreground call takes place.
\<close>

theorem reconnects_by_itself:
  "connected live_world \<and> attempts live_world = 1 \<and>
   attempts (deliver [(0, OnClose), (0, RunReturns), (0, SleepEnds)] live_world) = 2 \<and>
   trace (deliver [(0, OnClose), (0, RunReturns), (0, SleepEnds), (0, OnOpen)] live_world) =
     trace live_world @
       [RunForever 0 0,
        Send 0 (JObj [(''type'', JStr ''BOT_AUTH''), (''botId'', JStr ''bot-1''),
                      (''token'', JStr ''key-1'')])]"
  by (simp add: live_world_simps bg_step_def on_close_def ws_run_def on_open_def send_on_def
      demo_credentials_def attempts_def)

subsection \<open>The bootstrap\<close>















text \<open>
  What the two failures are in terms of the server's answer: \<^verbatim>\<open>register\<close> returns
  failure exactly when the answer to its request is a dict whose \<^verbatim>\<open>ok\<close> is not
  truthy, and \<^verbatim>\<open>authenticate\<close> returns failure exactly when there are no
  credentials or the answer to its request is such a dict.
\<close>

lemma register_fails_iff:
  "failed (register name w) =
     (case fst (api_request ''/api/world/bot/register'' ''POST''
             (JObj [(''agent_type'', JStr ''openclaw''), (''agent_version'', JStr ''1.0.0''),
                    (''public_key'', JStr (token_hex w)), (''requested_name'', name)]) w) of
        Inr (JObj d) \<Rightarrow> \<not> truthy (get d ''ok'')
      | _ \<Rightarrow> False)"
proof (cases "api_request ''/api/world/bot/register'' ''POST''
             (JObj [(''agent_type'', JStr ''openclaw''), (''agent_version'', JStr ''1.0.0''),
                    (''public_key'', JStr (token_hex w)), (''requested_name'', name)]) w")
  case (Pair res w1)
  show ?thesis
  proof (cases res)
    case (Inl e)
    then show ?thesis using Pair by (simp add: register_def failed_def)
  next
    case (Inr result)
    show ?thesis
    proof (cases result)
      case (JObj d)
      show ?thesis
      proof (cases "truthy (get d ''ok'')")
        case False
        then show ?thesis using Pair Inr JObj by (simp add: register_def failed_def attr_get_def)
      next
        case True
        then show ?thesis using Pair Inr JObj
          by (simp add: register_def failed_def attr_get_def save_credentials_def
              split: sum.splits option.splits)
      qed
    qed (use Pair Inr in \<open>simp_all add: register_def failed_def attr_get_def\<close>)
  qed
qed

lemma authenticate_fails_iff:
  "failed (authenticate w) =
     (if \<not> truthy (credentials w) then True
      else (case subscript (credentials w) ''api_key'' of
              Inl e \<Rightarrow> False
            | Inr token \<Rightarrow>
                (case fst (api_request ''/api/world/bot/auth'' ''POST'' (JObj [(''token'', token)]) w) of
                   Inr (JObj d) \<Rightarrow> \<not> truthy (get d ''ok'')
                 | _ \<Rightarrow> False)))"
proof (cases "truthy (credentials w)")
  case False
  then show ?thesis by (simp add: authenticate_def failed_def)
next
  case True
  show ?thesis
  proof (cases "subscript (credentials w) ''api_key''")
    case (Inl e)
    then show ?thesis using True by (simp add: authenticate_def failed_def)
  next
    case (Inr token)
    show ?thesis
    proof (cases "api_request ''/api/world/bot/auth'' ''POST'' (JObj [(''token'', token)]) w")
      case (Pair res w1)
      show ?thesis
      proof (cases res)
        case (Inl e)
        then show ?thesis using True Inr Pair by (simp add: authenticate_def failed_def)
      next
        case r: (Inr result)
        show ?thesis
        proof (cases result)
          case (JObj d)
          then show ?thesis using True Inr Pair r
            by (simp add: authenticate_def failed_def attr_get_def)
        qed (use True Inr Pair r in \<open>simp_all add: authenticate_def failed_def attr_get_def\<close>)
      qed
    qed
  qed
qed


















end
